theory Spec2Isabelle
  imports Complex_Main
begin

section \<open>Python values and errors\<close>

text \<open>
  The exceptions that the modelled functions of \<^verbatim>\<open>song_section.py\<close> and
  \<^verbatim>\<open>metronome.py\<close> can raise. A raise is the \<open>Inl\<close> branch of a result.
  \<open>IllTyped\<close> is not a Python exception: it marks a dictionary value that the typed
  record of the model cannot hold (Python would store it unchecked).
\<close>

datatype py_error = ValueError | TypeError | KeyError | ZeroDivisionError
  | AttributeError | IllTyped

text \<open>Dynamically typed values: what a settings attribute or a JSON dictionary may hold.\<close>

datatype pyval = PyInt int | PyStr string | PyBool bool | PyNone

text \<open>
  Sequencing of statements that may raise: the first error ends the computation, as an
  uncaught exception does.
\<close>

fun and_then :: "'e + 'a \<Rightarrow> ('a \<Rightarrow> 'e + 'b) \<Rightarrow> 'e + 'b" where
  "and_then (Inl e) f = Inl e"
| "and_then (Inr x) f = f x"

section \<open>song\_section.py\<close>

text \<open>
  \<^verbatim>\<open>@dataclass class SongSection\<close>: the fields with their annotated types.
  Python's \<open>int\<close> is unbounded, hence \<open>int\<close>.
\<close>

record SongSection =
  name :: string
  bars :: int
  bpm :: int
  beats_per_bar :: int
  subdivisions :: int
  swing_enabled :: bool

text \<open>
  \<^verbatim>\<open>__post_init__\<close>: the four checks in the order of the source; each raises
  \<open>ValueError\<close>. The dataclass constructor stores the fields and then runs it, so
  \<open>new_SongSection\<close> is the constructor call \<^verbatim>\<open>SongSection(name, bars, ...)\<close>.
\<close>

definition post_init :: "SongSection \<Rightarrow> py_error + SongSection" where
  "post_init s =
     (if bars s \<le> 0 then Inl ValueError
      else if SongSection.bpm s \<le> 0 then Inl ValueError
      else if SongSection.beats_per_bar s \<le> 0 then Inl ValueError
      else if SongSection.subdivisions s \<le> 0 then Inl ValueError
      else Inr s)"

definition new_SongSection ::
  "string \<Rightarrow> int \<Rightarrow> int \<Rightarrow> int \<Rightarrow> int \<Rightarrow> bool \<Rightarrow> py_error + SongSection" where
  "new_SongSection n b t bpb sd sw =
     post_init \<lparr>name = n, bars = b, bpm = t, beats_per_bar = bpb,
                subdivisions = sd, swing_enabled = sw\<rparr>"

definition get_total_ticks :: "SongSection \<Rightarrow> int" where
  "get_total_ticks s = bars s * SongSection.beats_per_bar s * SongSection.subdivisions s"

text \<open>A dictionary with string keys, as \<^verbatim>\<open>to_dict\<close> builds and \<^verbatim>\<open>json.load\<close> returns.\<close>

type_synonym pydict = "string \<rightharpoonup> pyval"

definition to_dict :: "SongSection \<Rightarrow> pydict" where
  "to_dict s =
     [''name'' \<mapsto> PyStr (name s),
      ''bars'' \<mapsto> PyInt (bars s),
      ''bpm'' \<mapsto> PyInt (SongSection.bpm s),
      ''beats_per_bar'' \<mapsto> PyInt (SongSection.beats_per_bar s),
      ''subdivisions'' \<mapsto> PyInt (SongSection.subdivisions s),
      ''swing_enabled'' \<mapsto> PyBool (SongSection.swing_enabled s)]"

text \<open>\<^verbatim>\<open>data[key]\<close>: a missing key raises \<open>KeyError\<close>.\<close>

definition getitem :: "pydict \<Rightarrow> string \<Rightarrow> py_error + pyval" where
  "getitem d k = (case d k of None \<Rightarrow> Inl KeyError | Some v \<Rightarrow> Inr v)"

text \<open>
  The comparison \<^verbatim>\<open>v <= 0\<close> of \<^verbatim>\<open>__post_init__\<close> on a dynamically typed value:
  an \<open>int\<close> compares, a \<open>bool\<close> is an \<open>int\<close> (\<open>True == 1\<close>), a string or \<open>None\<close>
  raises \<open>TypeError\<close>.
\<close>

fun num_field :: "pyval \<Rightarrow> py_error + int" where
  "num_field (PyInt n) = Inr n"
| "num_field (PyBool b) = Inr (if b then 1 else 0)"
| "num_field (PyStr _) = Inl TypeError"
| "num_field PyNone = Inl TypeError"

fun str_field :: "pyval \<Rightarrow> py_error + string" where
  "str_field (PyStr s) = Inr s"
| "str_field _ = Inl IllTyped"

fun bool_field :: "pyval \<Rightarrow> py_error + bool" where
  "bool_field (PyBool b) = Inr b"
| "bool_field _ = Inl IllTyped"

text \<open>
  The positivity check of one numeric field of \<^verbatim>\<open>__post_init__\<close>, on the value
  taken from the dictionary.
\<close>

definition check_positive :: "pyval \<Rightarrow> py_error + int" where
  "check_positive v =
     and_then (num_field v) (\<lambda>n. if n \<le> 0 then Inl ValueError else Inr n)"

text \<open>
  \<^verbatim>\<open>from_dict\<close>: the six subscriptions in the order of the keyword arguments (the
  first missing key raises \<open>KeyError\<close>), then the constructor with its checks in the
  order of \<^verbatim>\<open>__post_init__\<close>. The \<open>name\<close> and \<open>swing_enabled\<close> values are never
  inspected by the source; the typed record takes them last.
\<close>

definition from_dict :: "pydict \<Rightarrow> py_error + SongSection" where
  "from_dict d =
     and_then (getitem d ''name'') (\<lambda>vn.
     and_then (getitem d ''bars'') (\<lambda>vb.
     and_then (getitem d ''bpm'') (\<lambda>vt.
     and_then (getitem d ''beats_per_bar'') (\<lambda>vbpb.
     and_then (getitem d ''subdivisions'') (\<lambda>vsd.
     and_then (getitem d ''swing_enabled'') (\<lambda>vsw.
     and_then (check_positive vb) (\<lambda>b.
     and_then (check_positive vt) (\<lambda>t.
     and_then (check_positive vbpb) (\<lambda>bpb.
     and_then (check_positive vsd) (\<lambda>sd.
     and_then (str_field vn) (\<lambda>n.
     and_then (bool_field vsw) (\<lambda>sw.
       Inr \<lparr>name = n, bars = b, bpm = t, beats_per_bar = bpb,
            subdivisions = sd, swing_enabled = sw\<rparr>))))))))))))"

section \<open>config.py\<close>

definition DEFAULT_BPM :: int where "DEFAULT_BPM = 120"
definition DEFAULT_BEATS_PER_BAR :: int where "DEFAULT_BEATS_PER_BAR = 4"
definition DEFAULT_SUBDIVISIONS :: int where "DEFAULT_SUBDIVISIONS = 1"
definition DEFAULT_TIMER_DURATION :: rat where "DEFAULT_TIMER_DURATION = 0"
definition DEFAULT_TEMPO_CHANGE_STEP :: int where "DEFAULT_TEMPO_CHANGE_STEP = 5"
definition DEFAULT_TEMPO_CHANGE_INTERVAL :: int where "DEFAULT_TEMPO_CHANGE_INTERVAL = 4"
definition DEFAULT_COUNT_IN_BARS :: int where "DEFAULT_COUNT_IN_BARS = 2"
definition MIN_BPM :: int where "MIN_BPM = 20"
definition MAX_BPM :: int where "MAX_BPM = 250"

section \<open>The builtin \<^verbatim>\<open>int()\<close>\<close>

text \<open>
  \<^verbatim>\<open>_handle_tempo_change\<close> converts its two settings with \<^verbatim>\<open>int(...)\<close>. On a string
  (ASCII here) the builtin accepts an optional sign and decimal digits, with single
  underscores between digits, surrounded by whitespace; anything else raises
  \<open>ValueError\<close>, as does a literal of more than 4300 digits (CPython's default limit).
  \<open>None\<close> raises \<open>TypeError\<close>, which \<^verbatim>\<open>except ValueError\<close> does not catch.
\<close>

definition py_isspace :: "char \<Rightarrow> bool" where
  "py_isspace c = (let n = (of_char c :: nat) in (9 \<le> n \<and> n \<le> 13) \<or> n = 32)"

definition py_isdigit :: "char \<Rightarrow> bool" where
  "py_isdigit c = (let n = (of_char c :: nat) in 48 \<le> n \<and> n \<le> 57)"

definition strip :: "string \<Rightarrow> string" where
  "strip s = rev (dropWhile py_isspace (rev (dropWhile py_isspace s)))"

text \<open>
  The digits after the sign: \<open>prev\<close> tells whether the previous character was a digit,
  so that an underscore is accepted only between two digits.
\<close>

fun parse_digits :: "string \<Rightarrow> bool \<Rightarrow> nat \<Rightarrow> nat option" where
  "parse_digits [] prev acc = (if prev then Some acc else None)"
| "parse_digits (c # cs) prev acc =
     (if py_isdigit c then parse_digits cs True (10 * acc + (of_char c - 48))
      else if c = CHR ''_'' \<and> prev then parse_digits cs False acc
      else None)"

definition int_max_str_digits :: nat where "int_max_str_digits = 4300"

definition int_of_str :: "string \<Rightarrow> py_error + int" where
  "int_of_str s =
     (let t = strip s;
          neg = (t \<noteq> [] \<and> hd t = CHR ''-'');
          body = (if t \<noteq> [] \<and> (hd t = CHR ''-'' \<or> hd t = CHR ''+'') then tl t else t)
      in if int_max_str_digits < length (filter py_isdigit body) then Inl ValueError
         else case parse_digits body False 0 of
                None \<Rightarrow> Inl ValueError
              | Some n \<Rightarrow> Inr (if neg then - int n else int n))"

fun py_int :: "pyval \<Rightarrow> py_error + int" where
  "py_int (PyInt n) = Inr n"
| "py_int (PyBool b) = Inr (if b then 1 else 0)"
| "py_int (PyStr s) = int_of_str s"
| "py_int PyNone = Inl TypeError"

section \<open>metronome.py\<close>

subsection \<open>State\<close>

text \<open>
  The sound manager is a collaborator: the loop reads its six settings and calls
  \<^verbatim>\<open>play_sample\<close>. Volumes and times are Python floats; they are modelled as exact
  rationals, rounding is not modelled.
\<close>

record sound_manager =
  default_countin_sample :: string
  countin_volume :: rat
  accented_sample_var :: string
  regular_sample_var :: string
  accented_volume :: rat
  regular_volume :: rat

text \<open>\<^verbatim>\<open>SoundManager.__init__\<close>, with the defaults of \<^verbatim>\<open>config.py\<close>.\<close>

definition new_sound_manager :: sound_manager where
  "new_sound_manager =
     \<lparr>default_countin_sample = ''hihat-808.wav'', countin_volume = 3 / 5,
      accented_sample_var = ''kick-808.wav'', regular_sample_var = ''hihat-808.wav'',
      accented_volume = 1, regular_volume = 4 / 5\<rparr>"

text \<open>
  The attributes of \<^verbatim>\<open>Metronome\<close>. \<open>running\<close> is the event \<^verbatim>\<open>_running\<close>;
  \<open>thread\<close> holds the handle of the playback thread, the number of the thread among
  those this object has started, and \<open>threads_started\<close> counts them (a history
  variable). \<open>on_beat\<close> tells whether a callback is registered.
  \<^verbatim>\<open>tempo_change_step\<close> and \<^verbatim>\<open>tempo_change_interval\<close> are plain attributes that
  \<^verbatim>\<open>_handle_tempo_change\<close> converts on every use, so they are dynamic values.
  \<^verbatim>\<open>start_time\<close> and \<^verbatim>\<open>next_tick_time\<close> do not exist before the first
  \<^verbatim>\<open>start()\<close>: \<open>None\<close> is the missing attribute.
\<close>

record metronome =
  sound_manager :: sound_manager
  thread :: "nat option"
  threads_started :: nat
  running :: bool
  on_beat :: bool
  bpm :: int
  beats_per_bar :: int
  subdivisions :: int
  count_in_enabled :: bool
  count_in_bars :: int
  tempo_change_mode :: string
  tempo_change_step :: pyval
  tempo_change_interval :: pyval
  timer_duration :: rat
  swing_enabled :: bool
  current_section_index :: nat
  current_section :: "SongSection option"
  sections :: "SongSection list"
  start_time :: "rat option"
  next_tick_time :: "rat option"

text \<open>\<^verbatim>\<open>Metronome.__init__\<close>.\<close>

definition init :: "sound_manager \<Rightarrow> metronome" where
  "init sm =
     \<lparr>sound_manager = sm, thread = None, threads_started = 0, running = False,
      on_beat = False, bpm = DEFAULT_BPM, beats_per_bar = DEFAULT_BEATS_PER_BAR,
      subdivisions = DEFAULT_SUBDIVISIONS, count_in_enabled = True,
      count_in_bars = DEFAULT_COUNT_IN_BARS, tempo_change_mode = ''None'',
      tempo_change_step = PyInt DEFAULT_TEMPO_CHANGE_STEP,
      tempo_change_interval = PyInt DEFAULT_TEMPO_CHANGE_INTERVAL,
      timer_duration = DEFAULT_TIMER_DURATION, swing_enabled = False,
      current_section_index = 0, current_section = None, sections = [],
      start_time = None, next_tick_time = None\<rparr>"

subsection \<open>Run controller\<close>

text \<open>
  \<^verbatim>\<open>start(start_time=None)\<close>. \<open>now\<close> is what \<^verbatim>\<open>time.time()\<close> returns if it is
  called: \<^verbatim>\<open>start_time or time.time()\<close> takes the clock when the argument is
  \<open>None\<close> or zero.
\<close>

definition start :: "rat option \<Rightarrow> rat \<Rightarrow> metronome \<Rightarrow> metronome" where
  "start st now m =
     (if \<not> running m then
        let t = (case st of None \<Rightarrow> now | Some v \<Rightarrow> if v = 0 then now else v)
        in m\<lparr>running := True, start_time := Some t, next_tick_time := Some t,
              thread := Some (threads_started m),
              threads_started := Suc (threads_started m)\<rparr>
      else m)"

text \<open>\<^verbatim>\<open>stop()\<close>: the flag is cleared and the thread joined before the sequence is reset.\<close>

definition stop :: "metronome \<Rightarrow> metronome" where
  "stop m =
     m\<lparr>running := False, thread := None, current_section_index := 0,
        current_section := None, sections := []\<rparr>"

text \<open>
  \<^verbatim>\<open>start_song_flow(sections)\<close>. No statement of it raises; the result is a sum so that
  a normal return and a raise can be told apart.
\<close>

definition start_song_flow ::
  "SongSection list \<Rightarrow> rat \<Rightarrow> metronome \<Rightarrow> py_error + metronome" where
  "start_song_flow secs now m =
     (case secs of
        [] \<Rightarrow> Inr m
      | sec # _ \<Rightarrow>
          Inr (start None now
                (m\<lparr>sections := secs, current_section_index := 0,
                   current_section := Some sec,
                   bpm := SongSection.bpm sec,
                   beats_per_bar := SongSection.beats_per_bar sec,
                   subdivisions := SongSection.subdivisions sec,
                   swing_enabled := SongSection.swing_enabled sec\<rparr>)))"

text \<open>
  The write that ends \<^verbatim>\<open>_tap_tempo\<close> in \<^verbatim>\<open>ui.py\<close>:
  \<^verbatim>\<open>self.metronome.bpm.set(max(MIN_BPM, min(MAX_BPM, bpm)))\<close>, the only clamped
  write of the tempo from outside the loop. The argument is the rounded tapped tempo.
\<close>

definition tap_tempo_set :: "int \<Rightarrow> metronome \<Rightarrow> metronome" where
  "tap_tempo_set v m = m\<lparr>bpm := max MIN_BPM (min MAX_BPM v)\<rparr>"

subsection \<open>Tempo change and delay\<close>

text \<open>
  The \<^verbatim>\<open>try\<close> block of \<^verbatim>\<open>_handle_tempo_change\<close>: both conversions, and the defaults
  for both when either raises \<open>ValueError\<close>. Any other exception propagates.
\<close>

definition tempo_change_params :: "metronome \<Rightarrow> py_error + (int \<times> int)" where
  "tempo_change_params m =
     (case and_then (py_int (tempo_change_step m)) (\<lambda>step.
           and_then (py_int (tempo_change_interval m)) (\<lambda>interval.
             Inr (step, interval))) of
        Inl ValueError \<Rightarrow> Inr (DEFAULT_TEMPO_CHANGE_STEP, DEFAULT_TEMPO_CHANGE_INTERVAL)
      | Inl e \<Rightarrow> Inl e
      | Inr p \<Rightarrow> Inr p)"

text \<open>
  \<^verbatim>\<open>_handle_tempo_change(bar_count)\<close>. \<open>change_due\<close> is one condition
  \<^verbatim>\<open>mode == wanted and (bar_count % interval == 0)\<close>: the remainder is evaluated only
  when the mode matches (\<^verbatim>\<open>and\<close> short-circuits) and raises \<open>ZeroDivisionError\<close>
  on a zero interval. Python's \<^verbatim>\<open>%\<close> takes the sign of the divisor, as \<open>mod\<close> on
  \<open>int\<close> does.
\<close>

definition change_due :: "string \<Rightarrow> string \<Rightarrow> int \<Rightarrow> int \<Rightarrow> py_error + bool" where
  "change_due mode wanted bar_count interval =
     (if mode = wanted then
        (if interval = 0 then Inl ZeroDivisionError else Inr (bar_count mod interval = 0))
      else Inr False)"

definition handle_tempo_change :: "int \<Rightarrow> metronome \<Rightarrow> py_error + metronome" where
  "handle_tempo_change bar_count m =
     and_then (tempo_change_params m) (\<lambda>(step, interval).
     and_then (change_due (tempo_change_mode m) ''Speed Up'' bar_count interval) (\<lambda>up.
       if up then Inr (m\<lparr>bpm := min MAX_BPM (bpm m + step)\<rparr>)
       else
     and_then (change_due (tempo_change_mode m) ''Slow Down'' bar_count interval) (\<lambda>down.
       if down then Inr (m\<lparr>bpm := max MIN_BPM (bpm m - step)\<rparr>)
       else Inr m)))"

text \<open>
  \<^verbatim>\<open>_calculate_delay(tick_in_beat)\<close>. \<^verbatim>\<open>/\<close> is true division and raises
  \<open>ZeroDivisionError\<close> on a zero divisor.
\<close>

definition calculate_delay :: "int \<Rightarrow> metronome \<Rightarrow> py_error + rat" where
  "calculate_delay tick_in_beat m =
     (if swing_enabled m \<and> subdivisions m = 2 then
        (if bpm m = 0 then Inl ZeroDivisionError
         else Inr ((60 / of_int (bpm m)) * (if tick_in_beat = 0 then 2 / 3 else 1 / 3)))
      else if bpm m * subdivisions m = 0 then Inl ZeroDivisionError
      else Inr (60 / of_int (bpm m * subdivisions m)))"

subsection \<open>Playback loop\<close>

text \<open>
  What the loop does to the outside: a sample handed to the sound manager, the beat
  callback, a sleep.
\<close>

datatype event = PlaySample string rat | OnBeat bool | Sleep rat

text \<open>
  The state of one run of \<^verbatim>\<open>play\<close>: the object, the local variables of the method,
  the number of \<^verbatim>\<open>time.time()\<close> calls made so far, the effects in the order they
  happened, and the delays added to \<^verbatim>\<open>next_tick_time\<close> so far, oldest first (a
  history variable).
\<close>

record play_state =
  metro :: metronome
  tick_count :: int
  bar_count :: int
  accented_sample_name :: string
  regular_sample_name :: string
  accented_volume :: rat
  regular_volume :: rat
  clock_reads :: nat
  events :: "event list"
  delays :: "rat list"

text \<open>How one pass of the \<^verbatim>\<open>while\<close> loop ends: \<^verbatim>\<open>break\<close> (or a false loop test), or the next pass.\<close>

datatype 'a loop_step = Break 'a | Continue 'a

fun state_of :: "'a loop_step \<Rightarrow> 'a" where
  "state_of (Break s) = s"
| "state_of (Continue s) = s"

text \<open>
  The wall clock is outside the program: \<open>clock n\<close> is what the \<open>n\<close>-th call of
  \<^verbatim>\<open>time.time()\<close> in this run returns. Nothing is assumed about it, so every
  amount of jitter is covered.
\<close>

definition read_clock :: "(nat \<Rightarrow> rat) \<Rightarrow> play_state \<Rightarrow> rat \<times> play_state" where
  "read_clock clock ps = (clock (clock_reads ps), ps\<lparr>clock_reads := Suc (clock_reads ps)\<rparr>)"

definition emit :: "event \<Rightarrow> play_state \<Rightarrow> play_state" where
  "emit e ps = ps\<lparr>events := events ps @ [e]\<rparr>"

text \<open>
  The scheduling statements shared by both phases:
  \<^verbatim>\<open>self.next_tick_time += delay\<close>,
  \<^verbatim>\<open>sleep_time = self.next_tick_time - time.time()\<close>,
  \<^verbatim>\<open>if sleep_time > 0: time.sleep(sleep_time)\<close>.
\<close>

definition schedule_next :: "(nat \<Rightarrow> rat) \<Rightarrow> rat \<Rightarrow> play_state \<Rightarrow> py_error + play_state" where
  "schedule_next clock delay ps =
     (case next_tick_time (metro ps) of
        None \<Rightarrow> Inl AttributeError
      | Some t \<Rightarrow>
          let ps1 = ps\<lparr>metro := (metro ps)\<lparr>next_tick_time := Some (t + delay)\<rparr>,
                       delays := delays ps @ [delay]\<rparr>;
              (now, ps2) = read_clock clock ps1;
              sleep_time = (t + delay) - now
          in Inr (if sleep_time > 0 then emit (Sleep sleep_time) ps2 else ps2))"

text \<open>
  One pass of the count-in loop. In \<^verbatim>\<open>self.next_tick_time += 60 / self.bpm.get()\<close>
  the attribute is loaded before the division is evaluated.
\<close>

definition count_in_tick :: "(nat \<Rightarrow> rat) \<Rightarrow> play_state \<Rightarrow> py_error + play_state" where
  "count_in_tick clock ps =
     (let sm = sound_manager (metro ps);
          ps1 = emit (PlaySample (default_countin_sample sm) (countin_volume sm)) ps
      in if next_tick_time (metro ps1) = None then Inl AttributeError
         else if bpm (metro ps1) = 0 then Inl ZeroDivisionError
         else schedule_next clock (60 / of_int (bpm (metro ps1))) ps1)"

fun count_in :: "(nat \<Rightarrow> rat) \<Rightarrow> nat \<Rightarrow> play_state \<Rightarrow> py_error + play_state" where
  "count_in clock 0 ps = Inr ps"
| "count_in clock (Suc n) ps = and_then (count_in_tick clock ps) (count_in clock n)"

text \<open>
  The four assignments that read the sample names and volumes from the sound manager
  (before the loop, and again on every accented tick).
\<close>

definition snapshot_samples :: "play_state \<Rightarrow> play_state" where
  "snapshot_samples ps =
     (let sm = sound_manager (metro ps)
      in ps\<lparr>accented_sample_name := accented_sample_var sm,
             regular_sample_name := regular_sample_var sm,
             accented_volume := sound_manager.accented_volume sm,
             regular_volume := sound_manager.regular_volume sm\<rparr>)"

text \<open>
  The timer test at the top of the loop. The clock is read only when
  \<^verbatim>\<open>timer_duration > 0\<close>.
\<close>

definition check_timer :: "(nat \<Rightarrow> rat) \<Rightarrow> play_state \<Rightarrow> py_error + (bool \<times> play_state)" where
  "check_timer clock ps =
     (if timer_duration (metro ps) > 0 then
        (let (now, ps1) = read_clock clock ps
         in case start_time (metro ps1) of
              None \<Rightarrow> Inl AttributeError
            | Some s \<Rightarrow> Inr (now - s \<ge> timer_duration (metro ps1), ps1))
      else Inr (False, ps))"

text \<open>
  The move to the next section. A dataclass instance is always true, so
  \<^verbatim>\<open>if self.current_section\<close> tests for \<open>None\<close>. The index is incremented before
  the test that ends the sequence.
\<close>

definition advance_section :: "play_state \<Rightarrow> play_state loop_step" where
  "advance_section ps =
     (case current_section (metro ps) of
        None \<Rightarrow> Continue ps
      | Some cur \<Rightarrow>
          if bar_count ps \<ge> bars cur then
            (let i = current_section_index (metro ps) + 1;
                 m1 = (metro ps)\<lparr>current_section_index := i\<rparr>
             in if i \<ge> length (sections m1)
                then Break (ps\<lparr>metro := m1\<lparr>running := False\<rparr>\<rparr>)
                else
                  (let sec = sections m1 ! i
                   in Continue
                        (ps\<lparr>metro := m1\<lparr>current_section := Some sec,
                                          bpm := SongSection.bpm sec,
                                          beats_per_bar := SongSection.beats_per_bar sec,
                                          subdivisions := SongSection.subdivisions sec,
                                          swing_enabled := SongSection.swing_enabled sec\<rparr>,
                            bar_count := 0\<rparr>)))
          else Continue ps)"

text \<open>
  The position of a tick: \<^verbatim>\<open>current_beat\<close>, \<^verbatim>\<open>tick_in_beat\<close> and
  \<^verbatim>\<open>is_accented\<close>. Python's \<^verbatim>\<open>//\<close> and \<^verbatim>\<open>%\<close> round to minus infinity, as
  \<open>div\<close> and \<open>mod\<close> on \<open>int\<close> do, and raise on a zero divisor; \<^verbatim>\<open>and\<close> evaluates
  its second operand only when the first is true.
\<close>

definition tick_position :: "int \<Rightarrow> int \<Rightarrow> int \<Rightarrow> py_error + (int \<times> int \<times> bool)" where
  "tick_position subdivs bpb tick =
     (if subdivs = 0 then Inl ZeroDivisionError
      else
        let current_beat = (tick - 1) div subdivs;
            tick_in_beat = (tick - 1) mod subdivs
        in if tick_in_beat = 0 then
             (if bpb = 0 then Inl ZeroDivisionError
              else Inr (current_beat, tick_in_beat, current_beat mod bpb = 0))
           else Inr (current_beat, tick_in_beat, False))"

text \<open>The bar boundary: \<^verbatim>\<open>if tick_count % (beats_per_bar * subdivisions) == 0\<close>.\<close>

definition bar_boundary :: "play_state \<Rightarrow> py_error + play_state" where
  "bar_boundary ps =
     (let ticks_per_bar = beats_per_bar (metro ps) * subdivisions (metro ps)
      in if ticks_per_bar = 0 then Inl ZeroDivisionError
         else if tick_count ps mod ticks_per_bar = 0 then
           and_then (handle_tempo_change (bar_count ps + 1) (metro ps))
             (\<lambda>m'. Inr (ps\<lparr>bar_count := bar_count ps + 1, metro := m'\<rparr>))
         else Inr ps)"

text \<open>The rest of one pass, from \<^verbatim>\<open>tick_count += 1\<close> to the sleep.\<close>

definition tick_body :: "(nat \<Rightarrow> rat) \<Rightarrow> play_state \<Rightarrow> py_error + play_state" where
  "tick_body clock ps =
     (let ps1 = ps\<lparr>tick_count := tick_count ps + 1\<rparr>
      in and_then (tick_position (subdivisions (metro ps1)) (beats_per_bar (metro ps1))
                     (tick_count ps1))
           (\<lambda>(current_beat, tick_in_beat, is_accented).
              let ps2 = (if is_accented then snapshot_samples ps1 else ps1);
                  ps3 = (if is_accented
                         then emit (PlaySample (accented_sample_name ps2) (accented_volume ps2)) ps2
                         else emit (PlaySample (regular_sample_name ps2) (regular_volume ps2)) ps2);
                  ps4 = (if on_beat (metro ps3) then emit (OnBeat is_accented) ps3 else ps3)
              in and_then (bar_boundary ps4) (\<lambda>ps5.
                 and_then (calculate_delay tick_in_beat (metro ps5)) (\<lambda>delay.
                   schedule_next clock delay ps5))))"

text \<open>One pass of \<^verbatim>\<open>while self._running.is_set()\<close>.\<close>

definition play_tick :: "(nat \<Rightarrow> rat) \<Rightarrow> play_state \<Rightarrow> py_error + play_state loop_step" where
  "play_tick clock ps =
     (if \<not> running (metro ps) then Inr (Break ps)
      else
        and_then (check_timer clock ps) (\<lambda>(expired, ps1).
          if expired then Inr (Break (ps1\<lparr>metro := (metro ps1)\<lparr>running := False\<rparr>\<rparr>))
          else
            (case advance_section ps1 of
               Break ps2 \<Rightarrow> Inr (Break ps2)
             | Continue ps2 \<Rightarrow>
                 and_then (tick_body clock ps2) (\<lambda>ps3. Inr (Continue ps3)))))"

text \<open>
  The loop may run for ever (no timer, no sections, nobody calls \<^verbatim>\<open>stop\<close>), so it is
  run for at most \<open>n\<close> passes: \<open>Break\<close> is a loop that has ended, \<open>Continue\<close> one
  that is still running after \<open>n\<close> passes.
\<close>

fun run_ticks :: "(nat \<Rightarrow> rat) \<Rightarrow> nat \<Rightarrow> play_state \<Rightarrow> py_error + play_state loop_step" where
  "run_ticks clock 0 ps = Inr (Continue ps)"
| "run_ticks clock (Suc n) ps =
     and_then (play_tick clock ps) (\<lambda>r.
       case r of Break ps' \<Rightarrow> Inr (Break ps') | Continue ps' \<Rightarrow> run_ticks clock n ps')"

text \<open>
  \<^verbatim>\<open>play()\<close>: the count-in phase, the first reading of the samples, at most \<open>n\<close>
  passes of the loop. The sample variables are unbound until the first reading; the
  empty values stand for that and are never read.
\<close>

definition count_in_ticks :: "metronome \<Rightarrow> nat" where
  "count_in_ticks m =
     (if count_in_enabled m then nat (beats_per_bar m * count_in_bars m) else 0)"

definition play :: "(nat \<Rightarrow> rat) \<Rightarrow> nat \<Rightarrow> metronome \<Rightarrow> py_error + play_state loop_step" where
  "play clock n m =
     (let ps0 = \<lparr>metro = m, tick_count = 0, bar_count = 0,
                 accented_sample_name = [], regular_sample_name = [],
                 accented_volume = 0, regular_volume = 0,
                 clock_reads = 0, events = [], delays = []\<rparr>
      in and_then (if count_in_enabled m
                   then and_then (count_in clock (nat (beats_per_bar m * count_in_bars m)) ps0)
                          (\<lambda>ps. Inr (ps\<lparr>tick_count := 0\<rparr>))
                   else Inr ps0)
           (\<lambda>ps1. run_ticks clock n (snapshot_samples ps1)))"

subsection \<open>The schedule\<close>

text \<open>
  The state is on schedule when the next tick time is the start time \<open>s\<close> plus the
  delays computed so far, one delay per tick played: \<open>c\<close> count-in ticks and
  \<open>tick_count\<close> ticks of the loop.
\<close>

definition on_schedule :: "rat \<Rightarrow> nat \<Rightarrow> play_state \<Rightarrow> bool" where
  "on_schedule s c ps \<longleftrightarrow>
     start_time (metro ps) = Some s \<and>
     next_tick_time (metro ps) = Some (s + sum_list (delays ps)) \<and>
     0 \<le> tick_count ps \<and>
     length (delays ps) = c + nat (tick_count ps)"

section \<open>Section construction and serialisation\<close>

lemma post_init_Inr_iff:
  "post_init s = Inr s' \<longleftrightarrow>
     s' = s \<and> 0 < bars s \<and> 0 < SongSection.bpm s \<and>
     0 < SongSection.beats_per_bar s \<and> 0 < SongSection.subdivisions s"
  by (auto simp: post_init_def)

lemma to_dict_lookups:
  "getitem (to_dict s) ''name'' = Inr (PyStr (name s))"
  "getitem (to_dict s) ''bars'' = Inr (PyInt (bars s))"
  "getitem (to_dict s) ''bpm'' = Inr (PyInt (SongSection.bpm s))"
  "getitem (to_dict s) ''beats_per_bar'' = Inr (PyInt (SongSection.beats_per_bar s))"
  "getitem (to_dict s) ''subdivisions'' = Inr (PyInt (SongSection.subdivisions s))"
  "getitem (to_dict s) ''swing_enabled'' = Inr (PyBool (SongSection.swing_enabled s))"
  by (simp_all add: getitem_def to_dict_def)

text \<open>
  C8. Constructing a section raises (a \<open>ValueError\<close>) exactly when one of bars, bpm,
  beats\_per\_bar, subdivisions is not positive; when the construction succeeds it returns
  the section with the given fields, all four numeric fields positive.
\<close>

theorem C8_section_construction:
  "(new_SongSection n b t bpb sd sw = Inl ValueError \<longleftrightarrow>
       b \<le> 0 \<or> t \<le> 0 \<or> bpb \<le> 0 \<or> sd \<le> 0) \<and>
   (new_SongSection n b t bpb sd sw \<noteq> Inl ValueError \<longrightarrow>
       new_SongSection n b t bpb sd sw =
         Inr \<lparr>name = n, bars = b, bpm = t, beats_per_bar = bpb,
              subdivisions = sd, swing_enabled = sw\<rparr> \<and>
       0 < b \<and> 0 < t \<and> 0 < bpb \<and> 0 < sd)"
  by (simp add: new_SongSection_def post_init_def)

theorem C8_section_construction_witness:
  "new_SongSection ''verse'' 8 120 4 2 False =
     Inr \<lparr>name = ''verse'', bars = 8, bpm = 120, beats_per_bar = 4,
          subdivisions = 2, swing_enabled = False\<rparr> \<and>
   new_SongSection ''bad'' 8 0 4 2 False = Inl ValueError"
  using C8_section_construction [of "''verse''" 8 120 4 2 False]
        C8_section_construction [of "''bad''" 8 0 4 2 False]
  by simp

text \<open>
  C9. For every validly constructed section, \<^verbatim>\<open>from_dict(s.to_dict())\<close> succeeds and
  returns a section equal to \<open>s\<close> in every field.
\<close>

theorem C9_dict_roundtrip:
  "post_init s = Inr s \<Longrightarrow> from_dict (to_dict s) = Inr s"
  by (simp add: post_init_Inr_iff from_dict_def to_dict_lookups check_positive_def)

theorem C9_dict_roundtrip_witness:
  "post_init \<lparr>name = ''verse'', bars = 8, bpm = 120, beats_per_bar = 4,
              subdivisions = 2, swing_enabled = True\<rparr> =
     Inr \<lparr>name = ''verse'', bars = 8, bpm = 120, beats_per_bar = 4,
          subdivisions = 2, swing_enabled = True\<rparr> \<and>
   from_dict (to_dict \<lparr>name = ''verse'', bars = 8, bpm = 120, beats_per_bar = 4,
                       subdivisions = 2, swing_enabled = True\<rparr>) =
     Inr \<lparr>name = ''verse'', bars = 8, bpm = 120, beats_per_bar = 4,
          subdivisions = 2, swing_enabled = True\<rparr>"
proof -
  have ok: "post_init \<lparr>name = ''verse'', bars = 8, bpm = 120, beats_per_bar = 4,
                       subdivisions = 2, swing_enabled = True\<rparr> =
     Inr \<lparr>name = ''verse'', bars = 8, bpm = 120, beats_per_bar = 4,
          subdivisions = 2, swing_enabled = True\<rparr>"
    by (simp add: post_init_def)
  from ok C9_dict_roundtrip [OF ok] show ?thesis by simp
qed
section \<open>Delay, accent and tempo change\<close>

text \<open>
  C3. For a tempo within the limits and at least one subdivision, the delay of a tick is
  two thirds of a beat on the first tick of a beat and one third otherwise when swing is
  on and there are two subdivisions, and \<open>60 / (bpm * subdivisions)\<close> in every other
  case; with a number of subdivisions other than two the swing flag changes nothing.
\<close>

theorem C3_calculate_delay:
  assumes "MIN_BPM \<le> bpm m" "bpm m \<le> MAX_BPM" "1 \<le> subdivisions m"
  shows "calculate_delay tick_in_beat m =
           Inr (if swing_enabled m \<and> subdivisions m = 2
                then (if tick_in_beat = 0 then (60 / of_int (bpm m)) * 2 / 3
                      else (60 / of_int (bpm m)) * 1 / 3)
                else 60 / (of_int (bpm m) * of_int (subdivisions m))) \<and>
         (subdivisions m \<noteq> 2 \<longrightarrow>
            calculate_delay tick_in_beat (m\<lparr>swing_enabled := True\<rparr>) =
            calculate_delay tick_in_beat (m\<lparr>swing_enabled := False\<rparr>))"
  using assms by (simp add: calculate_delay_def MIN_BPM_def)

theorem C3_calculate_delay_witness:
  "calculate_delay 0 ((init new_sound_manager)\<lparr>subdivisions := 2, swing_enabled := True\<rparr>) =
     Inr (1 / 3) \<and>
   calculate_delay 1 ((init new_sound_manager)\<lparr>subdivisions := 2, swing_enabled := True\<rparr>) =
     Inr (1 / 6) \<and>
   calculate_delay 1 ((init new_sound_manager)\<lparr>subdivisions := 3, swing_enabled := True\<rparr>) =
   calculate_delay 1 ((init new_sound_manager)\<lparr>subdivisions := 3, swing_enabled := False\<rparr>)"
  using C3_calculate_delay
          [of "(init new_sound_manager)\<lparr>subdivisions := 2, swing_enabled := True\<rparr>" 0]
        C3_calculate_delay
          [of "(init new_sound_manager)\<lparr>subdivisions := 2, swing_enabled := True\<rparr>" 1]
        C3_calculate_delay
          [of "(init new_sound_manager)\<lparr>subdivisions := 3, swing_enabled := False\<rparr>" 1]
  by (simp add: init_def MIN_BPM_def MAX_BPM_def DEFAULT_BPM_def)

lemma accent_iff:
  fixes n s b :: int
  assumes "s \<noteq> 0"
  shows "(n mod s = 0 \<and> (n div s) mod b = 0) \<longleftrightarrow> n mod (b * s) = 0"
  using assms by (auto simp: mod_eq_0_iff_dvd dvd_div_iff_mult dest: dvd_mult_right)

text \<open>
  C4. For a tick count of at least one, the tick is at beat \<open>(tick - 1) div subdivisions\<close>
  and at position \<open>(tick - 1) mod subdivisions\<close> in it, and it is accented exactly when
  that position is zero and the beat is a multiple of the beats per bar, that is on every
  \<open>beats_per_bar * subdivisions\<close>-th tick starting with the first; with two subdivisions
  and four beats per bar these are the ticks 1, 9, 17, ... and no others.
\<close>

theorem C4_accent:
  assumes "1 \<le> tick" "0 < subdivs" "0 < bpb"
  shows "\<exists>acc. tick_position subdivs bpb tick =
             Inr ((tick - 1) div subdivs, (tick - 1) mod subdivs, acc) \<and>
           (acc \<longleftrightarrow> (tick - 1) mod subdivs = 0 \<and> ((tick - 1) div subdivs) mod bpb = 0) \<and>
           (acc \<longleftrightarrow> (tick - 1) mod (bpb * subdivs) = 0) \<and>
           (subdivs = 2 \<and> bpb = 4 \<longrightarrow> (acc \<longleftrightarrow> (\<exists>k\<ge>0. tick = 1 + 8 * k)))"
proof -
  let ?acc = "(tick - 1) mod subdivs = 0 \<and> ((tick - 1) div subdivs) mod bpb = 0"
  have pos: "tick_position subdivs bpb tick =
             Inr ((tick - 1) div subdivs, (tick - 1) mod subdivs, ?acc)"
    using assms by (simp add: tick_position_def Let_def)
  have per: "?acc \<longleftrightarrow> (tick - 1) mod (bpb * subdivs) = 0"
    using assms accent_iff [of subdivs "tick - 1" bpb] by simp
  have ex: "(tick - 1) mod 8 = 0 \<longleftrightarrow> (\<exists>k\<ge>0. tick = 1 + 8 * k)"
  proof
    assume "(tick - 1) mod 8 = 0"
    then have "tick = 1 + 8 * ((tick - 1) div 8)" by presburger
    moreover have "0 \<le> (tick - 1) div 8" using assms(1) by simp
    ultimately show "\<exists>k\<ge>0. tick = 1 + 8 * k" by blast
  next
    assume "\<exists>k\<ge>0. tick = 1 + 8 * k"
    then show "(tick - 1) mod 8 = 0" by auto
  qed
  show ?thesis
    using pos per ex by (intro exI [of _ ?acc]) auto
qed

theorem C4_accent_witness:
  "tick_position 2 4 9 = Inr (4, 0, True) \<and> tick_position 2 4 5 = Inr (2, 0, False)"
  using C4_accent [of 9 2 4] C4_accent [of 5 2 4] by auto

lemma and_then_Inr_iff:
  "and_then r f = Inr y \<longleftrightarrow> (\<exists>x. r = Inr x \<and> f x = Inr y)"
  by (cases r) auto

lemma tempo_change_params_ints:
  "tempo_change_step m = PyInt step \<Longrightarrow> tempo_change_interval m = PyInt interval \<Longrightarrow>
   tempo_change_params m = Inr (step, interval)"
  by (simp add: tempo_change_params_def)

lemma tempo_change_params_fallback:
  "py_int (tempo_change_step m) = Inl ValueError \<or>
   (py_int (tempo_change_step m) = Inr s \<and> py_int (tempo_change_interval m) = Inl ValueError) \<Longrightarrow>
   tempo_change_params m = Inr (DEFAULT_TEMPO_CHANGE_STEP, DEFAULT_TEMPO_CHANGE_INTERVAL)"
  by (auto simp: tempo_change_params_def)

lemma handle_tempo_change_params:
  "tempo_change_params m = Inr (step, interval) \<Longrightarrow> interval \<noteq> 0 \<Longrightarrow>
   handle_tempo_change bc m =
     Inr (if tempo_change_mode m = ''Speed Up'' \<and> bc mod interval = 0
          then m\<lparr>bpm := min MAX_BPM (bpm m + step)\<rparr>
          else if tempo_change_mode m = ''Slow Down'' \<and> bc mod interval = 0
          then m\<lparr>bpm := max MIN_BPM (bpm m - step)\<rparr>
          else m)"
  by (simp add: handle_tempo_change_def change_due_def)

lemma int_of_str_fast: "int_of_str ''fast'' = Inl ValueError"
  by (simp add: int_of_str_def strip_def py_isspace_def py_isdigit_def int_max_str_digits_def)

lemma handle_tempo_change_zero_interval:
  "handle_tempo_change 4
     ((init new_sound_manager)\<lparr>tempo_change_mode := ''Speed Up'',
        tempo_change_interval := PyInt 0\<rparr>) = Inl ZeroDivisionError"
  by (simp add: handle_tempo_change_def tempo_change_params_def change_due_def init_def
        DEFAULT_TEMPO_CHANGE_STEP_def)

text \<open>
  C7. With an integer step and interval, both positive, the tempo changes only at a bar
  count that is a multiple of the interval: there it grows by the step, capped at
  \<open>MAX_BPM\<close>, in mode Speed Up, and shrinks by the step, not below \<open>MIN_BPM\<close>, in
  mode Slow Down; at every other bar count, and in every other mode, the state is
  unchanged. With Speed Up, step 5 and interval 4, among the bar counts 1 to 8 the tempo
  grows at 4 and 8 only.
\<close>

theorem C7_tempo_change:
  assumes "tempo_change_step m = PyInt step" and "tempo_change_interval m = PyInt interval"
    and "0 < step" and "0 < interval" and "1 \<le> bc"
  shows "\<exists>m'. handle_tempo_change bc m = Inr m' \<and> m' = m\<lparr>bpm := bpm m'\<rparr> \<and>
           bpm m' =
             (if bc mod interval = 0 \<and> tempo_change_mode m = ''Speed Up''
                then min MAX_BPM (bpm m + step)
              else if bc mod interval = 0 \<and> tempo_change_mode m = ''Slow Down''
                then max MIN_BPM (bpm m - step)
              else bpm m) \<and>
           (tempo_change_mode m = ''Speed Up'' \<and> step = 5 \<and> interval = 4 \<and> bc \<le> 8 \<longrightarrow>
              (bpm m < bpm m' \<longrightarrow> bc = 4 \<or> bc = 8) \<and>
              ((bc = 4 \<or> bc = 8) \<and> bpm m < MAX_BPM \<longrightarrow> bpm m < bpm m'))"
proof -
  have p: "tempo_change_params m = Inr (step, interval)"
    using assms(1,2) by (rule tempo_change_params_ints)
  have i: "interval \<noteq> 0" using assms(4) by simp
  note h = handle_tempo_change_params [OF p i, of bc]
  have small: "bc \<le> 8 \<Longrightarrow> bc mod 4 = 0 \<longleftrightarrow> bc = 4 \<or> bc = 8"
    using assms(5) by presburger
  show ?thesis
    unfolding h using assms(3) small
    by (auto simp: MAX_BPM_def MIN_BPM_def)
qed

theorem C7_tempo_change_witness:
  "handle_tempo_change 4 ((init new_sound_manager)\<lparr>tempo_change_mode := ''Speed Up''\<rparr>) =
     Inr ((init new_sound_manager)\<lparr>tempo_change_mode := ''Speed Up'', bpm := 125\<rparr>)"
proof -
  let ?m = "(init new_sound_manager)\<lparr>tempo_change_mode := ''Speed Up''\<rparr>"
  have a: "tempo_change_step ?m = PyInt 5" "tempo_change_interval ?m = PyInt 4"
    by (simp_all add: init_def DEFAULT_TEMPO_CHANGE_STEP_def DEFAULT_TEMPO_CHANGE_INTERVAL_def)
  have b: "(0::int) < 5" "(0::int) < 4" "(1::int) \<le> 4" by simp_all
  from C7_tempo_change [OF a b] obtain m' where
    m': "handle_tempo_change 4 ?m = Inr m'" "m' = ?m\<lparr>bpm := bpm m'\<rparr>"
        "bpm m' = min MAX_BPM (bpm ?m + 5)"
    by auto
  have "bpm m' = 125" using m'(3) by (simp add: init_def MAX_BPM_def DEFAULT_BPM_def)
  with m'(1,2) show ?thesis by simp
qed

text \<open>
  C5 as stated fails: a negative step is an integer for \<^verbatim>\<open>int()\<close> and is used as it
  is, here 120 - 5 = 115 in mode Speed Up, where the defaults would give 125.
\<close>

theorem C5_negative_step_counterexample:
  "handle_tempo_change 4
     ((init new_sound_manager)\<lparr>tempo_change_mode := ''Speed Up'',
        tempo_change_step := PyInt (- 5)\<rparr>) =
   Inr ((init new_sound_manager)\<lparr>tempo_change_mode := ''Speed Up'',
        tempo_change_step := PyInt (- 5), bpm := 115\<rparr>) \<and>
   handle_tempo_change 4
     ((init new_sound_manager)\<lparr>tempo_change_mode := ''Speed Up'',
        tempo_change_step := PyInt (- 5)\<rparr>) \<noteq>
   Inr ((init new_sound_manager)\<lparr>tempo_change_mode := ''Speed Up'',
        tempo_change_step := PyInt (- 5),
        bpm := min MAX_BPM (DEFAULT_BPM + DEFAULT_TEMPO_CHANGE_STEP)\<rparr>)"
  by (simp add: handle_tempo_change_def tempo_change_params_def change_due_def init_def
        MAX_BPM_def DEFAULT_BPM_def DEFAULT_TEMPO_CHANGE_STEP_def
        DEFAULT_TEMPO_CHANGE_INTERVAL_def)

text \<open>
  C5, amended. When \<^verbatim>\<open>int()\<close> raises \<open>ValueError\<close> on the step, or on the interval
  after the step has converted, the tempo change at a bar boundary uses the defaults
  step 5 and interval 4 and returns without raising.
\<close>

theorem C5_fallback:
  assumes "py_int (tempo_change_step m) = Inl ValueError \<or>
           (py_int (tempo_change_step m) = Inr s \<and>
            py_int (tempo_change_interval m) = Inl ValueError)"
  shows "handle_tempo_change bc m =
           Inr (if tempo_change_mode m = ''Speed Up'' \<and> bc mod 4 = 0
                then m\<lparr>bpm := min MAX_BPM (bpm m + 5)\<rparr>
                else if tempo_change_mode m = ''Slow Down'' \<and> bc mod 4 = 0
                then m\<lparr>bpm := max MIN_BPM (bpm m - 5)\<rparr>
                else m)"
proof -
  have "tempo_change_params m = Inr (5, 4)"
    using tempo_change_params_fallback [OF assms]
    by (simp add: DEFAULT_TEMPO_CHANGE_STEP_def DEFAULT_TEMPO_CHANGE_INTERVAL_def)
  from handle_tempo_change_params [OF this, of bc] show ?thesis by simp
qed

theorem C5_fallback_witness:
  "handle_tempo_change 8
     ((init new_sound_manager)\<lparr>tempo_change_mode := ''Speed Up'',
        tempo_change_step := PyStr ''fast'', tempo_change_interval := PyInt 3\<rparr>) =
   Inr ((init new_sound_manager)\<lparr>tempo_change_mode := ''Speed Up'',
        tempo_change_step := PyStr ''fast'', tempo_change_interval := PyInt 3,
        bpm := 125\<rparr>)"
  using C5_fallback [of "(init new_sound_manager)\<lparr>tempo_change_mode := ''Speed Up'',
        tempo_change_step := PyStr ''fast'', tempo_change_interval := PyInt 3\<rparr>" 0 8]
  by (simp add: int_of_str_fast init_def MAX_BPM_def DEFAULT_BPM_def)

section \<open>Run controller\<close>

text \<open>
  C6 as stated fails: starting a sequence with no section returns normally, it raises
  nothing.
\<close>

theorem C6_no_error_counterexample:
  "\<not> isl (start_song_flow [] 0 (init new_sound_manager))"
  by (simp add: start_song_flow_def)

text \<open>
  C6, amended. Starting a sequence with an empty section list returns without an error
  and leaves the whole state as it was: section list, current index, tempo, meter, and
  no playback is started.
\<close>

theorem C6_empty_sequence: "start_song_flow [] now m = Inr m"
  by (simp add: start_song_flow_def)

text \<open>
  C10. \<^verbatim>\<open>start()\<close> on a running metronome changes nothing: the flag stays set, the
  start time and the next tick time are kept, and no thread is created. A thread is
  created exactly by a \<^verbatim>\<open>start()\<close> that finds the flag clear, and that call sets it.
\<close>

theorem C10_start_while_running:
  "(running m \<longrightarrow> start st now m = m) \<and>
   threads_started (start st now m) = threads_started m + (if running m then 0 else 1) \<and>
   running (start st now m)"
  by (simp add: start_def Let_def)

theorem C10_start_while_running_witness:
  "running (start None 7 (init new_sound_manager)) \<and>
   start (Some 9) 8 (start None 7 (init new_sound_manager)) =
     start None 7 (init new_sound_manager) \<and>
   start_time (start (Some 9) 8 (start None 7 (init new_sound_manager))) = Some 7 \<and>
   threads_started (start (Some 9) 8 (start None 7 (init new_sound_manager))) = 1"
  using C10_start_while_running [of "start None 7 (init new_sound_manager)" "Some 9" 8]
  by (simp add: start_def init_def)
section \<open>Tempo bounds\<close>

lemma handle_tempo_change_bounds:
  assumes "tempo_change_params m = Inr (step, interval)" and "0 \<le> step"
    and "MIN_BPM \<le> bpm m" and "bpm m \<le> MAX_BPM"
    and "handle_tempo_change bc m = Inr m'"
  shows "MIN_BPM \<le> bpm m' \<and> bpm m' \<le> MAX_BPM"
  using assms
  by (auto simp: handle_tempo_change_def change_due_def MIN_BPM_def MAX_BPM_def
           split: if_splits)

lemma advance_section_bpm:
  assumes "advance_section ps = Continue ps'"
  shows "ps' = ps \<or>
         (Suc (current_section_index (metro ps)) < length (sections (metro ps)) \<and>
          bpm (metro ps') =
            SongSection.bpm (sections (metro ps) ! Suc (current_section_index (metro ps))))"
  using assms
  by (auto simp: advance_section_def Let_def split: option.splits if_splits)

text \<open>
  C1 as stated fails: a section is valid with any positive tempo, and starting a sequence
  copies the tempo of its first section unclamped, here 300, above \<open>MAX_BPM\<close>.
\<close>

theorem C1_seeding_counterexample:
  "new_SongSection ''fast'' 4 300 4 1 False =
     Inr \<lparr>name = ''fast'', bars = 4, bpm = 300, beats_per_bar = 4, subdivisions = 1,
          swing_enabled = False\<rparr> \<and>
   map_sum id bpm
     (start_song_flow
        [\<lparr>name = ''fast'', bars = 4, bpm = 300, beats_per_bar = 4, subdivisions = 1,
          swing_enabled = False\<rparr>] 0 (init new_sound_manager)) = Inr 300 \<and>
   \<not> (300 \<le> MAX_BPM)"
  by (simp add: new_SongSection_def post_init_def start_song_flow_def start_def MAX_BPM_def)

text \<open>
  C1, amended. The tap-tempo write leaves the tempo within \<open>[MIN_BPM, MAX_BPM]\<close>. The
  tempo change at a bar boundary leaves it within the limits when it was within them
  before and the step in use is not negative. Seeding from a section, at the start of a
  sequence and at the move to the next section, sets the tempo to the tempo of that
  section as it is, unclamped.
\<close>

theorem C1_bpm_mutations:
  "(MIN_BPM \<le> bpm (tap_tempo_set v m) \<and> bpm (tap_tempo_set v m) \<le> MAX_BPM) \<and>
   (tempo_change_params m = Inr (step, interval) \<longrightarrow> 0 \<le> step \<longrightarrow>
      MIN_BPM \<le> bpm m \<longrightarrow> bpm m \<le> MAX_BPM \<longrightarrow> handle_tempo_change bc m = Inr m' \<longrightarrow>
      MIN_BPM \<le> bpm m' \<and> bpm m' \<le> MAX_BPM) \<and>
   (\<exists>m''. start_song_flow (sec # secs) now m = Inr m'' \<and> bpm m'' = SongSection.bpm sec) \<and>
   (advance_section ps = Continue ps' \<longrightarrow>
      ps' = ps \<or>
      (Suc (current_section_index (metro ps)) < length (sections (metro ps)) \<and>
       bpm (metro ps') =
         SongSection.bpm (sections (metro ps) ! Suc (current_section_index (metro ps)))))"
proof -
  have a: "MIN_BPM \<le> bpm (tap_tempo_set v m) \<and> bpm (tap_tempo_set v m) \<le> MAX_BPM"
    by (simp add: tap_tempo_set_def MIN_BPM_def MAX_BPM_def)
  have c: "\<exists>m''. start_song_flow (sec # secs) now m = Inr m'' \<and> bpm m'' = SongSection.bpm sec"
    by (simp add: start_song_flow_def start_def Let_def)
  show ?thesis
    using a c handle_tempo_change_bounds [of m step interval bc m']
      advance_section_bpm [of ps ps']
    by blast
qed


theorem C1_bpm_mutations_witness:
  "bpm (tap_tempo_set 300 (init new_sound_manager)) = 250 \<and>
   handle_tempo_change 4 ((init new_sound_manager)\<lparr>tempo_change_mode := ''Speed Up''\<rparr>) =
     Inr ((init new_sound_manager)\<lparr>tempo_change_mode := ''Speed Up'', bpm := 125\<rparr>) \<and>
   MIN_BPM \<le> 125 \<and> 125 \<le> MAX_BPM \<and>
   bpm (metro (state_of (advance_section
     \<lparr>metro = (init new_sound_manager)
        \<lparr>sections :=
           [\<lparr>name = ''a'', bars = 1, bpm = 100, beats_per_bar = 4, subdivisions = 1,
             swing_enabled = False\<rparr>,
            \<lparr>name = ''b'', bars = 2, bpm = 90, beats_per_bar = 3, subdivisions = 2,
             swing_enabled = True\<rparr>],
         current_section :=
           Some \<lparr>name = ''a'', bars = 1, bpm = 100, beats_per_bar = 4, subdivisions = 1,
                 swing_enabled = False\<rparr>\<rparr>,
      tick_count = 4, bar_count = 1, accented_sample_name = ''kick-808.wav'',
      regular_sample_name = ''hihat-808.wav'', accented_volume = 1, regular_volume = 4 / 5,
      clock_reads = 4, events = [], delays = []\<rparr>))) = 90"
proof -
  let ?m = "(init new_sound_manager)\<lparr>tempo_change_mode := ''Speed Up''\<rparr>"
  let ?a = "\<lparr>name = ''a'', bars = 1, bpm = 100, beats_per_bar = 4, subdivisions = 1,
             swing_enabled = False\<rparr>"
  let ?b = "\<lparr>name = ''b'', bars = 2, bpm = 90, beats_per_bar = 3, subdivisions = 2,
             swing_enabled = True\<rparr>"
  let ?ps = "\<lparr>metro = (init new_sound_manager)\<lparr>sections := [?a, ?b], current_section := Some ?a\<rparr>,
      tick_count = 4, bar_count = 1, accented_sample_name = ''kick-808.wav'',
      regular_sample_name = ''hihat-808.wav'', accented_volume = 1, regular_volume = 4 / 5,
      clock_reads = 4, events = [], delays = []\<rparr>"
  have p: "tempo_change_params ?m = Inr (5, 4)"
    by (simp add: tempo_change_params_def init_def DEFAULT_TEMPO_CHANGE_STEP_def
          DEFAULT_TEMPO_CHANGE_INTERVAL_def)
  have s: "(0::int) \<le> 5" by simp
  have b: "MIN_BPM \<le> bpm ?m" "bpm ?m \<le> MAX_BPM"
    by (simp_all add: init_def MIN_BPM_def MAX_BPM_def DEFAULT_BPM_def)
  have h: "handle_tempo_change 4 ?m = Inr (?m\<lparr>bpm := 125\<rparr>)"
    using handle_tempo_change_params [OF p, of 4]
    by (simp add: init_def MAX_BPM_def DEFAULT_BPM_def)
  have adv: "advance_section ?ps = Continue (state_of (advance_section ?ps))"
    by (simp add: advance_section_def init_def Let_def)
  have ne: "state_of (advance_section ?ps) \<noteq> ?ps"
    by (simp add: advance_section_def init_def Let_def)
  from C1_bpm_mutations [where v = 300 and m = ?m and step = 5 and interval = 4 and bc = 4
      and m' = "?m\<lparr>bpm := 125\<rparr>" and sec = ?a and secs = "[?b]" and now = 0
      and ps = ?ps and ps' = "state_of (advance_section ?ps)"] p s b h adv ne
  have "bpm (metro (state_of (advance_section ?ps))) = 90"
       "MIN_BPM \<le> 125" "125 \<le> MAX_BPM"
    by (simp_all add: init_def)
  moreover have "bpm (tap_tempo_set 300 (init new_sound_manager)) = 250"
    by (simp add: tap_tempo_set_def MIN_BPM_def MAX_BPM_def)
  ultimately show ?thesis using h by simp
qed
section \<open>The schedule of the playback loop\<close>

lemma foldl_add_sum_list: "foldl (+) (a::rat) xs = a + sum_list xs"
  by (induction xs arbitrary: a) (simp_all add: add.assoc)

lemma schedule_next_on_schedule:
  assumes "schedule_next clock d ps = Inr ps'"
  shows "start_time (metro ps') = start_time (metro ps) \<and>
         tick_count ps' = tick_count ps \<and>
         delays ps' = delays ps @ [d] \<and>
         next_tick_time (metro ps') = map_option (\<lambda>t. t + d) (next_tick_time (metro ps)) \<and>
         next_tick_time (metro ps) \<noteq> None"
  using assms
  by (auto simp: schedule_next_def read_clock_def emit_def Let_def split: option.splits if_splits)

lemma count_in_tick_on_schedule:
  assumes "count_in_tick clock ps = Inr ps'"
    and "start_time (metro ps) = Some s"
    and "next_tick_time (metro ps) = Some (s + sum_list (delays ps))"
  shows "start_time (metro ps') = Some s \<and>
         next_tick_time (metro ps') = Some (s + sum_list (delays ps')) \<and>
         tick_count ps' = tick_count ps \<and>
         length (delays ps') = Suc (length (delays ps))"
proof -
  let ?ps1 = "emit (PlaySample (default_countin_sample (sound_manager (metro ps)))
                      (countin_volume (sound_manager (metro ps)))) ps"
  from assms(1) obtain d where d: "schedule_next clock d ?ps1 = Inr ps'"
    by (auto simp: count_in_tick_def Let_def split: if_splits)
  have e: "metro ?ps1 = metro ps" "delays ?ps1 = delays ps" "tick_count ?ps1 = tick_count ps"
    by (simp_all add: emit_def)
  from schedule_next_on_schedule [OF d] e assms(2,3) show ?thesis
    by (simp add: add.assoc)
qed

lemma count_in_on_schedule:
  assumes "count_in clock n ps = Inr ps'"
    and "start_time (metro ps) = Some s"
    and "next_tick_time (metro ps) = Some (s + sum_list (delays ps))"
  shows "start_time (metro ps') = Some s \<and>
         next_tick_time (metro ps') = Some (s + sum_list (delays ps')) \<and>
         tick_count ps' = tick_count ps \<and>
         length (delays ps') = n + length (delays ps)"
  using assms
proof (induction n arbitrary: ps)
  case 0
  then show ?case by simp
next
  case (Suc n)
  from Suc.prems(1) obtain ps1 where
    t: "count_in_tick clock ps = Inr ps1" and r: "count_in clock n ps1 = Inr ps'"
    by (auto simp: and_then_Inr_iff)
  from count_in_tick_on_schedule [OF t Suc.prems(2,3)]
  have i: "start_time (metro ps1) = Some s"
          "next_tick_time (metro ps1) = Some (s + sum_list (delays ps1))"
          "tick_count ps1 = tick_count ps"
          "length (delays ps1) = Suc (length (delays ps))"
    by simp_all
  from Suc.IH [OF r i(1,2)] i(3,4) show ?case by simp
qed

lemma handle_tempo_change_times:
  "handle_tempo_change bc m = Inr m' \<Longrightarrow>
   start_time m' = start_time m \<and> next_tick_time m' = next_tick_time m"
  by (auto simp: handle_tempo_change_def and_then_Inr_iff split: if_splits)

lemma bar_boundary_times:
  assumes "bar_boundary ps = Inr ps'"
  shows "start_time (metro ps') = start_time (metro ps) \<and>
         next_tick_time (metro ps') = next_tick_time (metro ps) \<and>
         tick_count ps' = tick_count ps \<and> delays ps' = delays ps"
  using assms handle_tempo_change_times
  by (auto simp: bar_boundary_def Let_def and_then_Inr_iff split: if_splits)

lemma tick_body_on_schedule:
  assumes "tick_body clock ps = Inr ps'" and "on_schedule s c ps"
  shows "on_schedule s c ps'"
proof -
  let ?ps1 = "ps\<lparr>tick_count := tick_count ps + 1\<rparr>"
  from assms(1) obtain cb tib acc where
    pos: "tick_position (subdivisions (metro ps)) (beats_per_bar (metro ps)) (tick_count ps + 1)
            = Inr (cb, tib, acc)"
    by (auto simp: tick_body_def Let_def and_then_Inr_iff)
  let ?ps2 = "if acc then snapshot_samples ?ps1 else ?ps1"
  let ?ps3 = "if acc then emit (PlaySample (accented_sample_name ?ps2) (accented_volume ?ps2)) ?ps2
              else emit (PlaySample (regular_sample_name ?ps2) (regular_volume ?ps2)) ?ps2"
  let ?ps4 = "if on_beat (metro ?ps3) then emit (OnBeat acc) ?ps3 else ?ps3"
  from assms(1) pos obtain ps5 d where
    bb: "bar_boundary ?ps4 = Inr ps5" and sn: "schedule_next clock d ps5 = Inr ps'"
    by (auto simp: tick_body_def Let_def and_then_Inr_iff)
  have e: "metro ?ps4 = metro ps" "delays ?ps4 = delays ps" "tick_count ?ps4 = tick_count ps + 1"
    by (simp_all add: emit_def snapshot_samples_def Let_def)
  from bar_boundary_times [OF bb] schedule_next_on_schedule [OF sn] e assms(2)
  show ?thesis
    by (auto simp: on_schedule_def add.assoc nat_add_distrib)
qed

lemma check_timer_same:
  "check_timer clock ps = Inr (b, ps') \<Longrightarrow>
   metro ps' = metro ps \<and> delays ps' = delays ps \<and> tick_count ps' = tick_count ps"
  by (auto simp: check_timer_def read_clock_def Let_def split: if_splits option.splits)

lemma advance_section_on_schedule:
  "on_schedule s c ps \<Longrightarrow> on_schedule s c (state_of (advance_section ps))"
  by (auto simp: advance_section_def on_schedule_def Let_def split: option.splits)

lemma play_tick_on_schedule:
  assumes "play_tick clock ps = Inr r" and "on_schedule s c ps"
  shows "on_schedule s c (state_of r)"
proof (cases "running (metro ps)")
  case False
  with assms show ?thesis by (auto simp: play_tick_def)
next
  case True
  with assms(1) obtain b ps1 where
    ct: "check_timer clock ps = Inr (b, ps1)"
    by (auto simp: play_tick_def and_then_Inr_iff)
  from check_timer_same [OF ct] assms(2) have o1: "on_schedule s c ps1"
    by (simp add: on_schedule_def)
  show ?thesis
  proof (cases b)
    case True
    with assms(1) \<open>running (metro ps)\<close> ct have "r = Break (ps1\<lparr>metro := (metro ps1)\<lparr>running := False\<rparr>\<rparr>)"
      by (auto simp: play_tick_def)
    with o1 show ?thesis by (simp add: on_schedule_def)
  next
    case False
    note o2 = advance_section_on_schedule [OF o1]
    show ?thesis
    proof (cases "advance_section ps1")
      case (Break ps2)
      with assms(1) \<open>running (metro ps)\<close> ct False have "r = Break ps2"
        by (auto simp: play_tick_def)
      with o2 Break show ?thesis by simp
    next
      case (Continue ps2)
      with assms(1) \<open>running (metro ps)\<close> ct False obtain ps3 where
        tb: "tick_body clock ps2 = Inr ps3" and r: "r = Continue ps3"
        by (auto simp: play_tick_def and_then_Inr_iff)
      from o2 Continue have "on_schedule s c ps2" by simp
      from tick_body_on_schedule [OF tb this] r show ?thesis by simp
    qed
  qed
qed

lemma run_ticks_on_schedule:
  assumes "run_ticks clock n ps = Inr r" and "on_schedule s c ps"
  shows "on_schedule s c (state_of r)"
  using assms
proof (induction n arbitrary: ps)
  case 0
  then show ?case by auto
next
  case (Suc n)
  from Suc.prems(1) obtain r1 where
    pt: "play_tick clock ps = Inr r1"
    and rest: "(case r1 of Break ps' \<Rightarrow> Inr (Break ps') | Continue ps' \<Rightarrow> run_ticks clock n ps') = Inr r"
    by (auto simp: and_then_Inr_iff)
  note o1 = play_tick_on_schedule [OF pt Suc.prems(2)]
  show ?case
  proof (cases r1)
    case (Break ps')
    with rest o1 show ?thesis by auto
  next
    case (Continue ps')
    with rest o1 Suc.IH [of ps'] show ?thesis by auto
  qed
qed


lemma sum_list_const: "\<forall>x\<in>set xs. x = d \<Longrightarrow> sum_list xs = of_nat (length xs) * (d::rat)"
  by (induction xs) (simp_all add: algebra_simps)

lemma play_on_schedule:
  assumes "play clock n m = Inr r" and "start_time m = Some s" and "next_tick_time m = Some s"
  shows "on_schedule s (count_in_ticks m) (state_of r)"
proof -
  let ?ps0 = "\<lparr>metro = m, tick_count = 0, bar_count = 0,
                 accented_sample_name = [], regular_sample_name = [],
                 accented_volume = 0, regular_volume = 0,
                 clock_reads = 0, events = [], delays = []\<rparr>"
  from assms(1) obtain ps1 where
    ci: "(if count_in_enabled m
          then and_then (count_in clock (nat (beats_per_bar m * count_in_bars m)) ?ps0)
                 (\<lambda>ps. Inr (ps\<lparr>tick_count := 0\<rparr>))
          else Inr ?ps0) = Inr ps1"
    and run: "run_ticks clock n (snapshot_samples ps1) = Inr r"
    by (auto simp: play_def Let_def and_then_Inr_iff)
  have "on_schedule s (count_in_ticks m) ps1"
  proof (cases "count_in_enabled m")
    case False
    with ci assms(2,3) show ?thesis
      by (auto simp: on_schedule_def count_in_ticks_def)
  next
    case True
    with ci obtain ps where
      c: "count_in clock (nat (beats_per_bar m * count_in_bars m)) ?ps0 = Inr ps"
      and p: "ps1 = ps\<lparr>tick_count := 0\<rparr>"
      by (auto simp: and_then_Inr_iff)
    from count_in_on_schedule [OF c, of s] assms(2,3) p True show ?thesis
      by (simp add: on_schedule_def count_in_ticks_def)
  qed
  then have "on_schedule s (count_in_ticks m) (snapshot_samples ps1)"
    by (simp add: on_schedule_def snapshot_samples_def Let_def)
  from run_ticks_on_schedule [OF run this] show ?thesis .
qed

subsection \<open>A loop that nothing stops\<close>

text \<open>
  With no timer, no section sequence and no tempo change, every pass of the loop plays a
  tick and adds the same delay, whatever the clock returns.
\<close>

lemma bar_boundary_no_change:
  assumes "\<And>bc. handle_tempo_change bc (metro q) = Inr (metro q)"
    and "subdivisions (metro q) \<noteq> 0" and "beats_per_bar (metro q) \<noteq> 0"
  shows "\<exists>q'. bar_boundary q = Inr q' \<and> metro q' = metro q"
  using assms by (simp add: bar_boundary_def Let_def)

lemma schedule_next_metro:
  assumes "next_tick_time (metro q) = Some t"
  shows "\<exists>q'. schedule_next clock d q = Inr q' \<and>
           metro q' = (metro q)\<lparr>next_tick_time := Some (t + d)\<rparr>"
  using assms by (simp add: schedule_next_def read_clock_def emit_def Let_def)

lemma tick_body_unfold:
  assumes "tick_position (subdivisions (metro ps)) (beats_per_bar (metro ps))
             (tick_count ps + 1) = Inr (cb, tib, acc)"
  shows "\<exists>q. metro q = metro ps \<and> tick_count q = tick_count ps + 1 \<and>
           delays q = delays ps \<and>
           tick_body clock ps =
             and_then (bar_boundary q) (\<lambda>ps5.
             and_then (calculate_delay tib (metro ps5)) (\<lambda>d. schedule_next clock d ps5))"
proof (cases acc)
  case True
  show ?thesis
  proof (cases "on_beat (metro ps)")
    case True
    with \<open>acc\<close> assms show ?thesis
      by (intro exI [of _ "emit (OnBeat True)
             (emit (PlaySample (accented_sample_var (sound_manager (metro ps)))
                      (sound_manager.accented_volume (sound_manager (metro ps))))
                (snapshot_samples (ps\<lparr>tick_count := tick_count ps + 1\<rparr>)))"])
         (simp add: tick_body_def Let_def emit_def snapshot_samples_def)
  next
    case False
    with \<open>acc\<close> assms show ?thesis
      by (intro exI [of _ "emit (PlaySample (accented_sample_var (sound_manager (metro ps)))
                      (sound_manager.accented_volume (sound_manager (metro ps))))
                (snapshot_samples (ps\<lparr>tick_count := tick_count ps + 1\<rparr>))"])
         (simp add: tick_body_def Let_def emit_def snapshot_samples_def)
  qed
next
  case False
  show ?thesis
  proof (cases "on_beat (metro ps)")
    case True
    with \<open>\<not> acc\<close> assms show ?thesis
      by (intro exI [of _ "emit (OnBeat False)
             (emit (PlaySample (regular_sample_name ps) (regular_volume ps))
                (ps\<lparr>tick_count := tick_count ps + 1\<rparr>))"])
         (simp add: tick_body_def Let_def emit_def)
  next
    case False
    with \<open>\<not> acc\<close> assms show ?thesis
      by (intro exI [of _ "emit (PlaySample (regular_sample_name ps) (regular_volume ps))
                (ps\<lparr>tick_count := tick_count ps + 1\<rparr>)"])
         (simp add: tick_body_def Let_def emit_def)
  qed
qed

lemma play_tick_steady:
  assumes "running (metro ps)" and "timer_duration (metro ps) \<le> 0"
    and "current_section (metro ps) = None"
    and "tempo_change_mode (metro ps) \<noteq> ''Speed Up''"
    and "tempo_change_mode (metro ps) \<noteq> ''Slow Down''"
    and "tempo_change_params (metro ps) = Inr p"
    and "bpm (metro ps) \<noteq> 0" and "subdivisions (metro ps) \<noteq> 0"
    and "beats_per_bar (metro ps) \<noteq> 0"
    and "\<not> (swing_enabled (metro ps) \<and> subdivisions (metro ps) = 2)"
    and "next_tick_time (metro ps) = Some t"
  shows "\<exists>ps'. play_tick clock ps = Inr (Continue ps') \<and>
           metro ps' = (metro ps)\<lparr>next_tick_time :=
              Some (t + 60 / of_int (bpm (metro ps) * subdivisions (metro ps)))\<rparr>"
proof -
  have ct: "check_timer clock ps = Inr (False, ps)"
    using assms(2) by (simp add: check_timer_def)
  have adv: "advance_section ps = Continue ps"
    using assms(3) by (simp add: advance_section_def)
  have htc: "\<And>bc. handle_tempo_change bc (metro ps) = Inr (metro ps)"
    using assms(4,5,6) by (cases p) (simp add: handle_tempo_change_def change_due_def)
  have "\<exists>x. tick_position (subdivisions (metro ps)) (beats_per_bar (metro ps))
              (tick_count ps + 1) = Inr x"
    using assms(8,9) by (auto simp: tick_position_def Let_def)
  then obtain cb tib acc where
    pos: "tick_position (subdivisions (metro ps)) (beats_per_bar (metro ps)) (tick_count ps + 1)
            = Inr (cb, tib, acc)"
    by (metis prod_cases3)
  from tick_body_unfold [OF pos, of clock] obtain q where
    q: "metro q = metro ps"
    and tb: "tick_body clock ps =
             and_then (bar_boundary q) (\<lambda>ps5.
             and_then (calculate_delay tib (metro ps5)) (\<lambda>d. schedule_next clock d ps5))"
    by blast
  from bar_boundary_no_change [of q] htc assms(8,9) q obtain ps5 where
    bb: "bar_boundary q = Inr ps5" and m5: "metro ps5 = metro ps"
    by auto
  let ?d = "60 / of_int (bpm (metro ps) * subdivisions (metro ps)) :: rat"
  have cd: "calculate_delay tib (metro ps5) = Inr ?d"
    using assms(7,8,10) m5 by (auto simp: calculate_delay_def)
  from schedule_next_metro [of ps5 t clock ?d] assms(11) m5 obtain ps' where
    sn: "schedule_next clock ?d ps5 = Inr ps'"
    and m': "metro ps' = (metro ps)\<lparr>next_tick_time := Some (t + ?d)\<rparr>"
    by auto
  have "tick_body clock ps = Inr ps'"
    unfolding tb using bb cd sn by simp
  then have "play_tick clock ps = Inr (Continue ps')"
    using assms(1) ct adv by (simp add: play_tick_def)
  with m' show ?thesis by blast
qed

lemma run_ticks_steady:
  assumes "running (metro ps)" and "timer_duration (metro ps) \<le> 0"
    and "current_section (metro ps) = None"
    and "tempo_change_mode (metro ps) \<noteq> ''Speed Up''"
    and "tempo_change_mode (metro ps) \<noteq> ''Slow Down''"
    and "tempo_change_params (metro ps) = Inr p"
    and "bpm (metro ps) \<noteq> 0" and "subdivisions (metro ps) \<noteq> 0"
    and "beats_per_bar (metro ps) \<noteq> 0"
    and "\<not> (swing_enabled (metro ps) \<and> subdivisions (metro ps) = 2)"
    and "next_tick_time (metro ps) = Some t"
  shows "\<exists>ps'. run_ticks clock k ps = Inr (Continue ps') \<and>
           metro ps' = (metro ps)\<lparr>next_tick_time :=
              Some (t + of_nat k * (60 / of_int (bpm (metro ps) * subdivisions (metro ps))))\<rparr>"
  using assms
proof (induction k arbitrary: ps t)
  case 0
  then show ?case by simp
next
  case (Suc k)
  let ?d = "60 / of_int (bpm (metro ps) * subdivisions (metro ps)) :: rat"
  from play_tick_steady [OF Suc.prems, of clock] obtain ps1 where
    pt: "play_tick clock ps = Inr (Continue ps1)"
    and m1: "metro ps1 = (metro ps)\<lparr>next_tick_time := Some (t + ?d)\<rparr>"
    by blast
  have p1: "tempo_change_params (metro ps1) = Inr p"
    using Suc.prems(6) m1 by (simp add: tempo_change_params_def)
  from Suc.IH [of ps1 "t + ?d"] Suc.prems m1 p1 obtain ps' where
    r: "run_ticks clock k ps1 = Inr (Continue ps')"
    and m': "metro ps' = (metro ps1)\<lparr>next_tick_time := Some (t + ?d + of_nat k * ?d)\<rparr>"
    by auto
  have "run_ticks clock (Suc k) ps = Inr (Continue ps')"
    using pt r by simp
  moreover have g: "\<And>d::rat. t + d + of_nat k * d = t + of_nat (Suc k) * d"
    by (simp add: algebra_simps)
  have "metro ps' = (metro ps)\<lparr>next_tick_time := Some (t + ?d + of_nat k * ?d)\<rparr>"
    unfolding m' m1 by simp
  then have "metro ps' = (metro ps)\<lparr>next_tick_time := Some (t + of_nat (Suc k) * ?d)\<rparr>"
    by (simp only: g)
  ultimately show ?case by blast
qed

lemma play_steady:
  assumes "\<not> running m" and "\<not> count_in_enabled m" and "timer_duration m \<le> 0"
    and "current_section m = None"
    and "tempo_change_mode m \<noteq> ''Speed Up''" and "tempo_change_mode m \<noteq> ''Slow Down''"
    and "tempo_change_params m = Inr p"
    and "bpm m \<noteq> 0" and "subdivisions m \<noteq> 0" and "beats_per_bar m \<noteq> 0"
    and "\<not> (swing_enabled m \<and> subdivisions m = 2)"
  shows "\<exists>ps' s. play clock k (start st now m) = Inr (Continue ps') \<and>
           start_time (start st now m) = Some s \<and>
           next_tick_time (metro ps') =
             Some (s + of_nat k * (60 / of_int (bpm m * subdivisions m)))"
proof -
  let ?m = "start st now m"
  let ?ps = "snapshot_samples
               \<lparr>metro = ?m, tick_count = 0, bar_count = 0,
                accented_sample_name = [], regular_sample_name = [],
                accented_volume = 0, regular_volume = 0,
                clock_reads = 0, events = [], delays = []\<rparr>"
  from assms(1) obtain s where
    s: "start_time ?m = Some s" "next_tick_time ?m = Some s"
    by (simp add: start_def Let_def)
  have m: "metro ?ps = ?m" by (simp add: snapshot_samples_def Let_def)
  have f: "running ?m" "timer_duration ?m = timer_duration m"
    "current_section ?m = current_section m" "tempo_change_mode ?m = tempo_change_mode m"
    "bpm ?m = bpm m" "subdivisions ?m = subdivisions m" "beats_per_bar ?m = beats_per_bar m"
    "swing_enabled ?m = swing_enabled m" "count_in_enabled ?m = count_in_enabled m"
    by (simp_all add: start_def Let_def)
  have p: "tempo_change_params ?m = Inr p"
    using assms(7) by (simp add: tempo_change_params_def start_def Let_def)
  have "\<exists>ps'. run_ticks clock k ?ps = Inr (Continue ps') \<and>
          metro ps' = (metro ?ps)\<lparr>next_tick_time :=
            Some (s + of_nat k * (60 / of_int (bpm (metro ?ps) * subdivisions (metro ?ps))))\<rparr>"
    by (rule run_ticks_steady [where p = p]) (simp_all only: m f p s assms not_False_eq_True)
  then obtain ps' where
    r: "run_ticks clock k ?ps = Inr (Continue ps')"
    and m': "metro ps' = ?m\<lparr>next_tick_time :=
               Some (s + of_nat k * (60 / of_int (bpm m * subdivisions m)))\<rparr>"
    unfolding m f by blast
  have "play clock k ?m = Inr (Continue ps')"
    using r assms(2) f(9) by (simp add: play_def Let_def)
  with s(1) m' show ?thesis by simp
qed

subsection \<open>The next tick time\<close>

text \<open>
  C2. For every run of the playback, started by \<^verbatim>\<open>start()\<close>, every behaviour of the
  wall clock and every number of passes of the loop: the next tick time is the start time
  with the computed delays added one after the other, one delay per tick played (count-in
  ticks and loop ticks), whatever the clock returned; when all delays are equal to \<open>d\<close>
  it is the start time plus the number of ticks times \<open>d\<close>. And when nothing stops the
  loop (no count-in, no timer, no section sequence, no tempo change), \<open>k\<close> passes do
  play \<open>k\<close> ticks, and the next tick time is then the start time plus \<open>k\<close> times
  \<open>60 / (bpm * subdivisions)\<close>.
\<close>

theorem C2_next_tick_time:
  "(\<not> running m \<longrightarrow> play clock n (start st now m) = Inr r \<longrightarrow>
      (\<exists>s. start_time (start st now m) = Some s \<and>
           start_time (metro (state_of r)) = Some s \<and>
           next_tick_time (metro (state_of r)) = Some (foldl (+) s (delays (state_of r))) \<and>
           next_tick_time (metro (state_of r)) = Some (s + sum_list (delays (state_of r))) \<and>
           length (delays (state_of r)) = count_in_ticks m + nat (tick_count (state_of r)) \<and>
           (\<forall>d. (\<forall>x\<in>set (delays (state_of r)). x = d) \<longrightarrow>
              next_tick_time (metro (state_of r)) =
                Some (s + of_nat (length (delays (state_of r))) * d)))) \<and>
   (\<not> running m \<longrightarrow> \<not> count_in_enabled m \<longrightarrow> timer_duration m \<le> 0 \<longrightarrow>
    current_section m = None \<longrightarrow>
    tempo_change_mode m \<noteq> ''Speed Up'' \<longrightarrow> tempo_change_mode m \<noteq> ''Slow Down'' \<longrightarrow>
    tempo_change_params m = Inr p \<longrightarrow>
    bpm m \<noteq> 0 \<longrightarrow> subdivisions m \<noteq> 0 \<longrightarrow> beats_per_bar m \<noteq> 0 \<longrightarrow>
    \<not> (swing_enabled m \<and> subdivisions m = 2) \<longrightarrow>
      (\<exists>ps' s. play clock k (start st now m) = Inr (Continue ps') \<and>
           start_time (start st now m) = Some s \<and>
           next_tick_time (metro ps') =
             Some (s + of_nat k * (60 / of_int (bpm m * subdivisions m)))))"
proof (intro conjI impI)
  assume nr: "\<not> running m" and run: "play clock n (start st now m) = Inr r"
  from nr obtain s where
    s: "start_time (start st now m) = Some s" "next_tick_time (start st now m) = Some s"
    by (simp add: start_def Let_def)
  have c: "count_in_ticks (start st now m) = count_in_ticks m"
    by (simp add: start_def Let_def count_in_ticks_def)
  from play_on_schedule [OF run s] c
  have o: "on_schedule s (count_in_ticks m) (state_of r)" by simp
  then show "\<exists>s. start_time (start st now m) = Some s \<and>
           start_time (metro (state_of r)) = Some s \<and>
           next_tick_time (metro (state_of r)) = Some (foldl (+) s (delays (state_of r))) \<and>
           next_tick_time (metro (state_of r)) = Some (s + sum_list (delays (state_of r))) \<and>
           length (delays (state_of r)) = count_in_ticks m + nat (tick_count (state_of r)) \<and>
           (\<forall>d. (\<forall>x\<in>set (delays (state_of r)). x = d) \<longrightarrow>
              next_tick_time (metro (state_of r)) =
                Some (s + of_nat (length (delays (state_of r))) * d))"
    using s(1) by (auto simp: on_schedule_def foldl_add_sum_list sum_list_const)
next
  assume "\<not> running m" "\<not> count_in_enabled m" "timer_duration m \<le> 0"
    "current_section m = None"
    "tempo_change_mode m \<noteq> ''Speed Up''" "tempo_change_mode m \<noteq> ''Slow Down''"
    "tempo_change_params m = Inr p"
    "bpm m \<noteq> 0" "subdivisions m \<noteq> 0" "beats_per_bar m \<noteq> 0"
    "\<not> (swing_enabled m \<and> subdivisions m = 2)"
  then show "\<exists>ps' s. play clock k (start st now m) = Inr (Continue ps') \<and>
           start_time (start st now m) = Some s \<and>
           next_tick_time (metro ps') =
             Some (s + of_nat k * (60 / of_int (bpm m * subdivisions m)))"
    by (rule play_steady)
qed

theorem C2_next_tick_time_witness:
  "\<not> isl (play (\<lambda>k. 100 + of_nat k * 3 / 10) 3
            (start None 100 ((init new_sound_manager)\<lparr>count_in_bars := 1, beats_per_bar := 2\<rparr>))) \<and>
   next_tick_time (metro (state_of (projr
     (play (\<lambda>k. 100 + of_nat k * 3 / 10) 3
        (start None 100 ((init new_sound_manager)\<lparr>count_in_bars := 1, beats_per_bar := 2\<rparr>))))))
     = Some (100 + 5 * (1 / 2)) \<and>
   (\<exists>ps'. play (\<lambda>k. 100 + of_nat k * 3 / 10) 1000
            (start None 100 ((init new_sound_manager)\<lparr>count_in_enabled := False\<rparr>)) =
              Inr (Continue ps') \<and>
          next_tick_time (metro ps') = Some (100 + 1000 * (1 / 2)))"
proof -
  let ?m = "(init new_sound_manager)\<lparr>count_in_bars := 1, beats_per_bar := 2\<rparr>"
  let ?c = "\<lambda>k. 100 + of_nat k * 3 / (10::rat)"
  let ?r = "play ?c 3 (start None 100 ?m)"
  have nr: "\<not> running ?m" by (simp add: init_def)
  have ok: "\<not> isl ?r" by code_simp
  then have run: "?r = Inr (projr ?r)" by (cases ?r) auto
  have st: "start_time (start None 100 ?m) = Some 100" by (simp add: start_def init_def)
  have ds: "delays (state_of (projr ?r)) = [1 / 2, 1 / 2, 1 / 2, 1 / 2, 1 / 2]" by code_simp
  from C2_next_tick_time [of ?m ?c 3 None 100 "projr ?r"] nr run st ds
  have a: "next_tick_time (metro (state_of (projr ?r))) = Some (100 + 5 * (1 / 2))"
    by auto
  let ?u = "(init new_sound_manager)\<lparr>count_in_enabled := False\<rparr>"
  have h: "\<not> running ?u" "\<not> count_in_enabled ?u" "timer_duration ?u \<le> 0"
    "current_section ?u = None"
    "tempo_change_mode ?u \<noteq> ''Speed Up''" "tempo_change_mode ?u \<noteq> ''Slow Down''"
    "tempo_change_params ?u = Inr (5, 4)"
    "bpm ?u \<noteq> 0" "subdivisions ?u \<noteq> 0" "beats_per_bar ?u \<noteq> 0"
    "\<not> (swing_enabled ?u \<and> subdivisions ?u = 2)"
    by (simp_all add: init_def tempo_change_params_def DEFAULT_BPM_def DEFAULT_SUBDIVISIONS_def
          DEFAULT_BEATS_PER_BAR_def DEFAULT_TIMER_DURATION_def DEFAULT_TEMPO_CHANGE_STEP_def
          DEFAULT_TEMPO_CHANGE_INTERVAL_def)
  have su: "start_time (start None 100 ?u) = Some 100" by (simp add: start_def init_def)
  have bu: "bpm ?u * subdivisions ?u = 120"
    by (simp add: init_def DEFAULT_BPM_def DEFAULT_SUBDIVISIONS_def)
  from C2_next_tick_time [of ?u ?c 0 None 100 "projr ?r" "(5, 4)" 1000] h su
  have b: "\<exists>ps'. play ?c 1000 (start None 100 ?u) = Inr (Continue ps') \<and>
          next_tick_time (metro ps') = Some (100 + 1000 * (1 / 2))"
    unfolding bu by auto
  from ok a b show ?thesis by blast
qed

end
